theory Spec2Isabelle
  imports Main "HOL-Library.AList"
begin

text \<open>
  A dependency-injection container. \<^verbatim>\<open>src/context.js\<close> is the Context: a registry from
  keys to Providers with \<open>provide\<close>, \<open>resolve\<close>, \<open>resolveAll\<close> and \<open>using\<close>, and a
  directory of named Contexts. The Provider (\<^verbatim>\<open>src/provider.js\<close>) and the error class are
  not among the sources; what is said about them is marked as modelled from the spec.
  The definitions come first, then what is proved about them, claim by claim.
\<close>

section \<open>JavaScript values, promises and calls\<close>

text \<open>
  The values that flow through the container. Numbers are kept to the integers and NaN;
  \<open>JObj r\<close> is a reference to an object or a function (always truthy).
\<close>

datatype jsval = JUndefined | JNull | JBool bool | JNum int | JNaN | JStr string | JObj nat

text \<open>The filter callback of \<open>resolveAll\<close>, \<^verbatim>\<open>values => !!values\<close>: JavaScript's ToBoolean.\<close>

fun truthy :: "jsval \<Rightarrow> bool" where
  "truthy JUndefined = False"
| "truthy JNull = False"
| "truthy (JBool b) = b"
| "truthy (JNum n) = (n \<noteq> 0)"
| "truthy JNaN = False"
| "truthy (JStr s) = (s \<noteq> [])"
| "truthy (JObj r) = True"

text \<open>
  What is thrown or is the reason of a rejection. \<open>DependencyError\<close> carries its message;
  \<open>TypeError\<close> and \<open>RangeError\<close> are the engine's own; \<open>UnconfiguredProvider\<close> is the
  spec's error for a Provider without a strategy; \<open>Thrown v\<close> is whatever user code (a
  factory, a consumer, a rejected promise handed in) raised.
\<close>

datatype error =
    DependencyError string
  | TypeError string
  | RangeError string
  | UnconfiguredProvider
  | Thrown jsval

text \<open>
  A promise is represented by the way it settles (one that never settles is not
  represented). A call either returns or throws synchronously; the difference between \<open>Throws e\<close> and \<open>Returns (Rejected e)\<close> is the
  difference between a synchronous exception and a failed asynchronous result.
\<close>

datatype 'a promise = Fulfilled 'a | Rejected error

datatype 'a call = Returns 'a | Throws error

text \<open>What user code hands in: a plain value, or a promise of one.\<close>

datatype raw = Plain jsval | Eventual "jsval promise"

subsection \<open>The promise library\<close>

text \<open>
  The operations of the promise library (bluebird) that \<^verbatim>\<open>context.js\<close> calls, after the
  library's documentation. \<^verbatim>\<open>Promise.resolve\<close> adopts a promise and wraps a plain value.
\<close>

fun Promise_resolve :: "raw \<Rightarrow> jsval promise" where
  "Promise_resolve (Plain v) = Fulfilled v"
| "Promise_resolve (Eventual p) = p"

definition Promise_reject :: "error \<Rightarrow> 'a promise" where
  "Promise_reject e = Rejected e"

text \<open>\<^verbatim>\<open>.then(f)\<close> for a handler that returns a plain result and does not throw.\<close>

fun promise_then :: "('a \<Rightarrow> 'b) \<Rightarrow> 'a promise \<Rightarrow> 'b promise" where
  "promise_then f (Fulfilled x) = Fulfilled (f x)"
| "promise_then f (Rejected e) = Rejected e"

text \<open>\<^verbatim>\<open>.filter(f)\<close> and \<^verbatim>\<open>.reduce(f, init)\<close> on the promise of an array, for pure callbacks.\<close>

fun promise_filter :: "('a \<Rightarrow> bool) \<Rightarrow> 'a list promise \<Rightarrow> 'a list promise" where
  "promise_filter f (Fulfilled xs) = Fulfilled (filter f xs)"
| "promise_filter f (Rejected e) = Rejected e"

fun promise_reduce :: "('b \<Rightarrow> 'a \<Rightarrow> 'b) \<Rightarrow> 'b \<Rightarrow> 'a list promise \<Rightarrow> 'b promise" where
  "promise_reduce f init (Fulfilled xs) = Fulfilled (foldl f init xs)"
| "promise_reduce f init (Rejected e) = Rejected e"

text \<open>
  \<^verbatim>\<open>.map(f)\<close> on an array, for a mapper that works on a state \<open>'s\<close>. The mapper is called
  on the elements in order, and the work behind the promise it returns is done by the
  time it returns; a mapper that throws, or returns a rejected promise, rejects the
  whole map with that reason, and the elements after it are not mapped.

  This is the library where every promise is settled when the mapper returns it. The
  library goes on calling the mapper while a promise returned earlier is pending, and
  defers the work of a nested map. So the order in which factories are invoked can
  differ from the order of the elements, and after a map with a failing element the
  state, and with several failing elements the reason, can be those of a later element.
  The places of the results of a map that fulfils, and that a map with a failing
  element is rejected, do not depend on it.
\<close>

fun promise_map :: "('a \<Rightarrow> 's \<Rightarrow> 'b promise call \<times> 's) \<Rightarrow> 'a list \<Rightarrow> 's \<Rightarrow> 'b list promise \<times> 's" where
  "promise_map f [] s = (Fulfilled [], s)"
| "promise_map f (x # xs) s =
     (case f x s of
        (Throws e, s') \<Rightarrow> (Rejected e, s')
      | (Returns (Rejected e), s') \<Rightarrow> (Rejected e, s')
      | (Returns (Fulfilled y), s') \<Rightarrow>
          (case promise_map f xs s' of
             (Rejected e, s'') \<Rightarrow> (Rejected e, s'')
           | (Fulfilled ys, s'') \<Rightarrow> (Fulfilled (y # ys), s'')))"

lemma promise_map_cong [fundef_cong]:
  "xs = ys \<Longrightarrow> s = t \<Longrightarrow> (\<And>x u. x \<in> set ys \<Longrightarrow> f x u = g x u)
    \<Longrightarrow> promise_map f xs s = promise_map g ys t"
proof (induction ys arbitrary: xs s t)
  case Nil
  then show ?case by simp
next
  case (Cons y ys)
  have tail: "\<And>u. promise_map f ys u = promise_map g ys u"
    using Cons.IH Cons.prems(3) by simp
  have head: "f y t = g y t"
    using Cons.prems(3) by simp
  show ?case
    using Cons.prems(1,2) head tail
    by (simp split: prod.splits call.splits promise.splits)
qed

section \<open>Plain objects used as dictionaries\<close>

text \<open>
  \<^verbatim>\<open>static _repo = {}\<close> and \<^verbatim>\<open>_providers = {}\<close> are ordinary objects. Their own
  properties are kept in insertion order. An ordinary object inherits from
  \<^verbatim>\<open>Object.prototype\<close>, so reading \<^verbatim>\<open>obj[key]\<close> finds a value under each of the
  names below although nothing was stored there, and assigning an object to
  \<^verbatim>\<open>obj['__proto__']\<close> replaces the prototype instead of creating a property.
\<close>

record 'a jsobj =
  own :: "(string \<times> 'a) list"
  proto :: "'a option"

definition obj_empty :: "'a jsobj" where
  "obj_empty = \<lparr>own = [], proto = None\<rparr>"

definition Object_prototype_names :: "string list" where
  "Object_prototype_names =
     [''constructor'', ''__defineGetter__'', ''__defineSetter__'', ''hasOwnProperty'',
      ''__lookupGetter__'', ''__lookupSetter__'', ''isPrototypeOf'', ''propertyIsEnumerable'',
      ''toString'', ''valueOf'', ''__proto__'', ''toLocaleString'']"

text \<open>
  The result of \<^verbatim>\<open>obj[key]\<close>: \<open>Absent\<close> is \<^verbatim>\<open>undefined\<close>, \<open>Entry v\<close> is a value that
  was stored, \<open>Inherited\<close> is a value found on the prototype chain that was never stored
  (a method of \<^verbatim>\<open>Object.prototype\<close>, or a member of the object that became the
  prototype). \<open>members\<close> are the property names of the stored objects.
\<close>

datatype 'a lookup = Absent | Entry 'a | Inherited

definition obj_get :: "string list \<Rightarrow> 'a jsobj \<Rightarrow> string \<Rightarrow> 'a lookup" where
  "obj_get members obj key =
     (case map_of (own obj) key of
        Some v \<Rightarrow> Entry v
      | None \<Rightarrow>
          if key = ''__proto__'' then (case proto obj of Some v \<Rightarrow> Entry v | None \<Rightarrow> Inherited)
          else if key \<in> set Object_prototype_names then Inherited
          else if proto obj \<noteq> None \<and> key \<in> set members then Inherited
          else Absent)"

text \<open>The value that was stored under \<open>key\<close>, if one was: what \<open>obj_get\<close> finds as an \<open>Entry\<close>.\<close>

definition entry_at :: "'a jsobj \<Rightarrow> string \<Rightarrow> 'a option" where
  "entry_at obj key =
     (case map_of (own obj) key of
        Some v \<Rightarrow> Some v
      | None \<Rightarrow> if key = ''__proto__'' then proto obj else None)"

text \<open>\<^verbatim>\<open>obj[key] = v\<close> for an object \<open>v\<close>.\<close>

definition obj_set :: "'a jsobj \<Rightarrow> string \<Rightarrow> 'a \<Rightarrow> 'a jsobj" where
  "obj_set obj key v =
     (if key = ''__proto__'' \<and> map_of (own obj) key = None then obj\<lparr>proto := Some v\<rparr>
      else obj\<lparr>own := AList.update key v (own obj)\<rparr>)"

text \<open>\<^verbatim>\<open>delete obj[key]\<close> removes an own property and nothing else.\<close>

definition obj_delete :: "'a jsobj \<Rightarrow> string \<Rightarrow> 'a jsobj" where
  "obj_delete obj key = obj\<lparr>own := AList.delete key (own obj)\<rparr>"

text \<open>
  \<^verbatim>\<open>Object.keys(obj)\<close>: the own property names, first those that are array indices
  (canonical decimal numerals below \<open>2^32 - 1\<close>) in ascending numeric order, then the
  others in insertion order.
\<close>

definition is_digit :: "char \<Rightarrow> bool" where
  "is_digit ch = (48 \<le> (of_char ch :: nat) \<and> (of_char ch :: nat) \<le> 57)"

definition str_nat :: "string \<Rightarrow> nat" where
  "str_nat s = foldl (\<lambda>n ch. 10 * n + (of_char ch - 48)) 0 s"

definition is_array_index :: "string \<Rightarrow> bool" where
  "is_array_index s =
     (s \<noteq> [] \<and> list_all is_digit s \<and> (s = ''0'' \<or> hd s \<noteq> CHR ''0'') \<and> str_nat s < 4294967295)"

definition Object_keys :: "'a jsobj \<Rightarrow> string list" where
  "Object_keys obj =
     (let ks = map fst (own obj)
      in sort_key str_nat (filter is_array_index ks) @ filter (\<lambda>k. \<not> is_array_index k) ks)"

section \<open>The state of the program\<close>

text \<open>
  Contexts and providers are objects with identity, so they live in two stores and are
  named by references; \<open>new\<close> takes the next free reference. \<open>'u\<close> is the state of the
  user's program, which a factory or a consumer may read and change (the counter of the
  test \<^verbatim>\<open>Memoized resolve\<close>). A factory works on that state only: it does not call back
  into the container.
\<close>

text \<open>
  Modelled from the spec: the production strategy of a Provider (\<^verbatim>\<open>provider.js\<close> is
  not among the sources). A literal, a zero-argument factory, or an alias to another key.
\<close>

datatype 'u strategy =
    Literal raw
  | Factory "'u \<Rightarrow> raw call \<times> 'u"
  | Alias string

text \<open>
  Modelled from the spec: a Provider has a back-reference to its Context, at most one
  strategy, and the memoized production of its factory.
\<close>

record 'u provider =
  owner :: nat
  strategy :: "'u strategy option"
  cached :: "jsval promise call option"

text \<open>\<^verbatim>\<open>this.name\<close> and \<^verbatim>\<open>this._providers\<close> of a Context.\<close>

record ctx =
  name :: "string option"
  providers :: "nat jsobj"

record 'u world =
  ctxs :: "nat \<Rightarrow> ctx"
  next_cid :: nat
  provs :: "nat \<Rightarrow> 'u provider"
  next_pid :: nat
  repo :: "nat jsobj"
  user :: 'u

definition world0 :: "'u \<Rightarrow> 'u world" where
  "world0 u =
     \<lparr>ctxs = (\<lambda>c. \<lparr>name = None, providers = obj_empty\<rparr>), next_cid = 0,
      provs = (\<lambda>p. \<lparr>owner = 0, strategy = None, cached = None\<rparr>), next_pid = 0,
      repo = obj_empty, user = u\<rparr>"

text \<open>
  The property names of a Context instance (\<^verbatim>\<open>context.js\<close>) and the ones of a Provider
  that the sources show (\<^verbatim>\<open>provider.get()\<close> in \<^verbatim>\<open>resolve\<close>, the three configuration
  methods in the tests). They matter only once such an object has become a prototype.
\<close>

definition Context_members :: "string list" where
  "Context_members = [''name'', ''_providers'', ''provide'', ''resolve'', ''resolveAll'', ''using'']"

definition Provider_members :: "string list" where
  "Provider_members = [''get'', ''as'', ''with'', ''aliasTo'']"

section \<open>Context: the directory of named instances\<close>

text \<open>\<^verbatim>\<open>static get(name) { return Context._repo[name]; }\<close>\<close>

definition Context_get :: "'u world \<Rightarrow> string \<Rightarrow> nat lookup" where
  "Context_get w nm = obj_get Context_members (repo w) nm"

text \<open>\<^verbatim>\<open>static delete(name) { delete Context._repo[name]; }\<close>\<close>

definition Context_delete :: "string \<Rightarrow> 'u world \<Rightarrow> 'u world" where
  "Context_delete nm w = w\<lparr>repo := obj_delete (repo w) nm\<rparr>"

text \<open>
  \<^verbatim>\<open>constructor(name) { this.name = name; if (name) { Context._repo[name] = this; } }\<close>,
  after the field initialiser \<^verbatim>\<open>_providers = {}\<close>. \<open>None\<close> is a call without a name;
  the empty string is falsy.
\<close>

definition Context_new :: "string option \<Rightarrow> 'u world \<Rightarrow> nat \<times> 'u world" where
  "Context_new nm w =
     (let this = next_cid w;
          w1 = w\<lparr>ctxs := (ctxs w)(this := \<lparr>name = nm, providers = obj_empty\<rparr>),
                 next_cid := Suc this\<rparr>
      in case nm of
           None \<Rightarrow> (this, w1)
         | Some n \<Rightarrow>
             if n \<noteq> [] then (this, w1\<lparr>repo := obj_set (repo w1) n this\<rparr>) else (this, w1))"

section \<open>Provider\<close>

text \<open>
  Modelled from the spec: \<^verbatim>\<open>new Provider(context)\<close>, a Provider bound to its Context
  with no strategy and nothing produced.
\<close>

definition Provider_new :: "nat \<Rightarrow> 'u world \<Rightarrow> nat \<times> 'u world" where
  "Provider_new c w =
     (let p = next_pid w
      in (p, w\<lparr>provs := (provs w)(p := \<lparr>owner = c, strategy = None, cached = None\<rparr>),
               next_pid := Suc p\<rparr>))"

text \<open>Modelled from the spec: a Provider has one strategy, and setting it replaces the last.\<close>

definition set_strategy :: "nat \<Rightarrow> 'u strategy \<Rightarrow> 'u world \<Rightarrow> 'u world" where
  "set_strategy p st w = w\<lparr>provs := (provs w)(p := (provs w p)\<lparr>strategy := Some st\<rparr>)\<rparr>"

text \<open>
  Modelled from the spec: \<^verbatim>\<open>as(value)\<close>, \<^verbatim>\<open>with(factory)\<close> and \<^verbatim>\<open>aliasTo(key)\<close> of
  Provider set the strategy (the last call wins) and return the Provider.
\<close>

definition provider_as :: "nat \<Rightarrow> raw \<Rightarrow> 'u world \<Rightarrow> nat \<times> 'u world" where
  "provider_as p v w = (p, set_strategy p (Literal v) w)"

definition provider_with :: "nat \<Rightarrow> ('u \<Rightarrow> raw call \<times> 'u) \<Rightarrow> 'u world \<Rightarrow> nat \<times> 'u world" where
  "provider_with p fn w = (p, set_strategy p (Factory fn) w)"

definition provider_aliasTo :: "nat \<Rightarrow> string \<Rightarrow> 'u world \<Rightarrow> nat \<times> 'u world" where
  "provider_aliasTo p k w = (p, set_strategy p (Alias k) w)"

text \<open>
  Modelled from the spec: what the factory strategy produces on its first call. The
  factory is invoked on the user's state and its result is unwrapped. What the factory
  raises is not caught (spec 7: "never caught or retried by the core"), and the
  failure is the memoized outcome.
\<close>

definition produce :: "('u \<Rightarrow> raw call \<times> 'u) \<Rightarrow> 'u \<Rightarrow> jsval promise call \<times> 'u" where
  "produce fn u =
     (case fn u of
        (Throws e, u') \<Rightarrow> (Throws e, u')
      | (Returns x, u') \<Rightarrow> (Returns (Promise_resolve x), u'))"

text \<open>Modelled from the spec: handing the memoized outcome back to the caller of \<^verbatim>\<open>get()\<close>.\<close>

fun replay :: "jsval promise call \<Rightarrow> raw call" where
  "replay (Throws e) = Throws e"
| "replay (Returns pr) = Returns (Eventual pr)"

text \<open>
  Modelled from the spec: \<^verbatim>\<open>get()\<close> of Provider (4.1; \<^verbatim>\<open>provider.js\<close> is not among the
  sources). A literal is returned as it is (the caller unwraps it); a factory is invoked
  on the first call, and its outcome is cached and handed back from then on; an alias
  delegates to the resolution of its key by the owning Context, \<open>context_resolve\<close>; a
  Provider without a strategy yields a failed asynchronous result (3 and 7).
\<close>

definition provider_get ::
  "(nat \<Rightarrow> string \<Rightarrow> 'u world \<Rightarrow> jsval promise call \<times> 'u world)
     \<Rightarrow> nat \<Rightarrow> 'u world \<Rightarrow> raw call \<times> 'u world" where
  "provider_get context_resolve p w =
     (case strategy (provs w p) of
        None \<Rightarrow> (Returns (Eventual (Rejected UnconfiguredProvider)), w)
      | Some (Literal x) \<Rightarrow> (Returns x, w)
      | Some (Factory fn) \<Rightarrow>
          (case cached (provs w p) of
             Some r \<Rightarrow> (replay r, w)
           | None \<Rightarrow>
               (case produce fn (user w) of
                  (r, u') \<Rightarrow>
                    (replay r,
                     w\<lparr>provs := (provs w)(p := (provs w p)\<lparr>cached := Some r\<rparr>), user := u'\<rparr>)))
      | Some (Alias k) \<Rightarrow>
          (case context_resolve (owner (provs w p)) k w of
             (Throws e, w') \<Rightarrow> (Throws e, w')
           | (Returns pr, w') \<Rightarrow> (Returns (Eventual pr), w')))"

section \<open>Context: registration and resolution\<close>

text \<open>
  \<^verbatim>\<open>provide(key) { const provider = new Provider(this); this._providers[key] = provider;
  return provider; }\<close>
\<close>

definition provide :: "nat \<Rightarrow> string \<Rightarrow> 'u world \<Rightarrow> nat \<times> 'u world" where
  "provide c key w =
     (case Provider_new c w of
        (provider, w1) \<Rightarrow>
          (provider,
           w1\<lparr>ctxs := (ctxs w1)(c := (ctxs w1 c)\<lparr>providers :=
                 obj_set (providers (ctxs w1 c)) key provider\<rparr>)\<rparr>))"

text \<open>
  \<open>resolve\<close> is \<^verbatim>\<open>context.js\<close>'s:
  \<^verbatim>\<open>
  const provider = this._providers[key];
  if (provider === undefined) {
    return Promise.reject(new DependencyError(`Cannot find provider for: ${key}`));
  } else {
    return Promise.resolve(provider.get());
  }
  \<close>
  \<^verbatim>\<open>provider.get()\<close> is evaluated before \<^verbatim>\<open>Promise.resolve\<close> is called, so what it throws
  leaves \<open>resolve\<close> as a synchronous exception. A value inherited from the prototype
  chain is not \<^verbatim>\<open>undefined\<close> and has no method \<^verbatim>\<open>get\<close>: calling it is a TypeError.
  The Provider is handed the \<open>resolve\<close> of its Context for its alias. \<open>d\<close> is the room
  left on the call stack for such nested calls: with none left, the call ends in the
  engine's RangeError.
\<close>

definition stack_overflow :: "nat \<Rightarrow> string \<Rightarrow> 'u world \<Rightarrow> jsval promise call \<times> 'u world" where
  "stack_overflow c key w = (Throws (RangeError ''Maximum call stack size exceeded''), w)"

fun resolve :: "nat \<Rightarrow> nat \<Rightarrow> string \<Rightarrow> 'u world \<Rightarrow> jsval promise call \<times> 'u world" where
  "resolve d c key w =
     (case obj_get Provider_members (providers (ctxs w c)) key of
        Absent \<Rightarrow>
          (Returns (Promise_reject (DependencyError (''Cannot find provider for: '' @ key))), w)
      | Inherited \<Rightarrow> (Throws (TypeError ''provider.get is not a function''), w)
      | Entry provider \<Rightarrow>
          (case provider_get
                  (\<lambda>c' k w'. case d of 0 \<Rightarrow> stack_overflow c' k w' | Suc d' \<Rightarrow> resolve d' c' k w')
                  provider w of
             (Throws e, w') \<Rightarrow> (Throws e, w')
           | (Returns x, w') \<Rightarrow> (Returns (Promise_resolve x), w')))"

text \<open>
  The condition of \<open>resolveAll\<close>, in the order of its tests: an array, a regular
  expression (its \<^verbatim>\<open>test\<close>, without the flags that make it stateful), a callable (a
  predicate on keys that returns a boolean and does not throw), \<^verbatim>\<open>undefined\<close>,
  \<^verbatim>\<open>true\<close>, \<^verbatim>\<open>null\<close>, \<^verbatim>\<open>false\<close>, and anything else, which is taken as a key (keys
  are strings). An array is a finite tree: it does not contain itself.
\<close>

datatype cond =
    CArray "cond list"
  | CRegExp "string \<Rightarrow> bool"
  | CCallable "string \<Rightarrow> bool"
  | CUndefined
  | CTrue
  | CNull
  | CFalse
  | CKey string

text \<open>
  \<open>resolveAll\<close>, branch by branch as in \<^verbatim>\<open>context.js\<close>. The mappers run inside the
  promise library, which turns what they throw into a rejection; the last branch calls
  \<^verbatim>\<open>this.resolve(cond)\<close> directly.
\<close>

fun resolveAll :: "nat \<Rightarrow> nat \<Rightarrow> cond \<Rightarrow> 'u world \<Rightarrow> jsval list promise call \<times> 'u world" where
  "resolveAll d c (CArray cs) w =
     (case promise_map (\<lambda>x. resolveAll d c x) cs w of
        (p, w') \<Rightarrow>
          (Returns (promise_filter truthy (promise_reduce (\<lambda>acc item. acc @ item) [] p)), w'))"
| "resolveAll d c (CRegExp re) w =
     (case promise_map (\<lambda>key. resolve d c key)
             (filter re (Object_keys (providers (ctxs w c)))) w of
        (p, w') \<Rightarrow> (Returns (promise_filter truthy p), w'))"
| "resolveAll d c (CCallable f) w =
     (case promise_map (\<lambda>key. resolve d c key)
             (filter f (Object_keys (providers (ctxs w c)))) w of
        (p, w') \<Rightarrow> (Returns (promise_filter truthy p), w'))"
| "resolveAll d c CUndefined w =
     (case promise_map (\<lambda>key. resolve d c key) (Object_keys (providers (ctxs w c))) w of
        (p, w') \<Rightarrow> (Returns (promise_filter truthy p), w'))"
| "resolveAll d c CTrue w =
     (case promise_map (\<lambda>key. resolve d c key) (Object_keys (providers (ctxs w c))) w of
        (p, w') \<Rightarrow> (Returns (promise_filter truthy p), w'))"
| "resolveAll d c CNull w = (Returns (Fulfilled []), w)"
| "resolveAll d c CFalse w = (Returns (Fulfilled []), w)"
| "resolveAll d c (CKey key) w =
     (case resolve d c key w of
        (Throws e, w') \<Rightarrow> (Throws e, w')
      | (Returns p, w') \<Rightarrow>
          (Returns (promise_filter truthy (promise_then (\<lambda>v. [v]) p)), w'))"

text \<open>
  \<^verbatim>\<open>using(cond, consumer) { return (...ownArgs) =>
  this.resolveAll(cond).then(values => consumer(...values, ...ownArgs)); }\<close>
  The consumer runs in a \<^verbatim>\<open>then\<close> handler: what it throws rejects the result, what it
  returns is unwrapped. (\<open>using\<close> is a keyword of the proof language, hence the name.)
\<close>

definition using_cond ::
  "nat \<Rightarrow> nat \<Rightarrow> cond \<Rightarrow> (jsval list \<Rightarrow> 'u \<Rightarrow> raw call \<times> 'u)
     \<Rightarrow> jsval list \<Rightarrow> 'u world \<Rightarrow> jsval promise call \<times> 'u world" where
  "using_cond d c cnd consumer =
     (\<lambda>ownArgs w.
        case resolveAll d c cnd w of
          (Throws e, w') \<Rightarrow> (Throws e, w')
        | (Returns (Rejected e), w') \<Rightarrow> (Returns (Rejected e), w')
        | (Returns (Fulfilled vs), w') \<Rightarrow>
            (case consumer (vs @ ownArgs) (user w') of
               (Throws e, u') \<Rightarrow> (Returns (Rejected e), w'\<lparr>user := u'\<rparr>)
             | (Returns x, u') \<Rightarrow> (Returns (Promise_resolve x), w'\<lparr>user := u'\<rparr>)))"

text \<open>
  The keys that a condition other than an array selects from the registry, after the
  spec's enumeration (4.2, kinds 2 to 6), to be compared with the branches of
  \<open>resolveAll\<close>; and the conditions whose keys are resolved by a mapper (kinds 2 to 5).
\<close>

definition selected_keys :: "'a jsobj \<Rightarrow> cond \<Rightarrow> string list" where
  "selected_keys obj cnd =
     (case cnd of
        CArray cs \<Rightarrow> []
      | CRegExp re \<Rightarrow> filter re (Object_keys obj)
      | CCallable f \<Rightarrow> filter f (Object_keys obj)
      | CUndefined \<Rightarrow> Object_keys obj
      | CTrue \<Rightarrow> Object_keys obj
      | CNull \<Rightarrow> []
      | CFalse \<Rightarrow> []
      | CKey key \<Rightarrow> [key])"

definition is_flat :: "cond \<Rightarrow> bool" where
  "is_flat cnd = (case cnd of CArray cs \<Rightarrow> False | CKey key \<Rightarrow> False | _ \<Rightarrow> True)"

text \<open>
  What a resolution may change: \<open>only_caches w w'\<close> holds when \<open>w'\<close> differs from \<open>w\<close> at
  most in the user's state and in caches that were empty in \<open>w\<close>. The registries, the
  directory, the strategies and every filled cache are the same.
\<close>

definition only_caches :: "'u world \<Rightarrow> 'u world \<Rightarrow> bool" where
  "only_caches w w' =
     (ctxs w' = ctxs w \<and> next_cid w' = next_cid w \<and> next_pid w' = next_pid w \<and> repo w' = repo w
      \<and> (\<forall>q. owner (provs w' q) = owner (provs w q)
             \<and> strategy (provs w' q) = strategy (provs w q)
             \<and> (\<forall>r. cached (provs w q) = Some r \<longrightarrow> cached (provs w' q) = Some r)))"

section \<open>The tests' setting\<close>

text \<open>
  \<open>n\<close> calls of \<open>resolve(key)\<close>, one after the other, each awaited, as in the test
  \<^verbatim>\<open>Memoized resolve\<close>: the results and the state after the last.
\<close>

fun resolve_times :: "nat \<Rightarrow> nat \<Rightarrow> nat \<Rightarrow> string \<Rightarrow> 'u world \<Rightarrow> jsval promise call list \<times> 'u world" where
  "resolve_times 0 d c key w = ([], w)"
| "resolve_times (Suc n) d c key w =
     (case resolve d c key w of
        (r, w') \<Rightarrow> (case resolve_times n d c key w' of (rs, w'') \<Rightarrow> (r # rs, w'')))"

text \<open>
  The "Given" of every test: \<^verbatim>\<open>const context = new Context();\<close> in a program whose
  own state is a counter at 0. The Context is reference 0.
\<close>

definition test_world :: "nat world" where
  "test_world = snd (Context_new None (world0 0))"

text \<open>The tests' "When": \<^verbatim>\<open>context.provide('test-key').as(value)\<close>.\<close>

definition given_value :: "raw \<Rightarrow> nat world" where
  "given_value v = snd (provider_as 0 v (snd (provide 0 ''test-key'' test_world)))"

text \<open>
  The same setting for a program that keeps a log: its own state is the list of the
  argument lists its consumer was called with.
\<close>

definition log_world :: "jsval list list world" where
  "log_world = snd (Context_new None (world0 []))"

section \<open>Objects as dictionaries: reading after writing\<close>

lemma obj_get_Entry_iff: "(obj_get ms obj key = Entry v) = (entry_at obj key = Some v)"
  by (auto simp: obj_get_def entry_at_def split: option.splits)

lemma entry_at_obj_set:
  "entry_at (obj_set obj key v) k = (if k = key then Some v else entry_at obj k)"
  by (auto simp: entry_at_def obj_set_def update_conv' split: option.splits)

lemma obj_get_obj_set_same: "obj_get ms (obj_set obj key v) key = Entry v"
  by (simp add: obj_get_Entry_iff entry_at_obj_set)

section \<open>The directory of named instances\<close>

lemma Context_new_fst: "fst (Context_new nm w) = next_cid w"
  by (simp add: Context_new_def Let_def split: option.splits)

lemma Context_new_repo:
  "repo (snd (Context_new nm w)) =
     (case nm of None \<Rightarrow> repo w
      | Some n \<Rightarrow> if n \<noteq> [] then obj_set (repo w) n (next_cid w) else repo w)"
  by (simp add: Context_new_def Let_def split: option.splits)

text \<open>
  C10. Constructing a Context with a non-empty name \<open>n\<close> makes \<open>Context.get(n)\<close> return
  that instance, whatever was registered under \<open>n\<close> before, and leaves what is stored
  under every other name as it was; so \<open>Context.get(n)\<close> is the most recently
  constructed Context named \<open>n\<close>. Constructing a Context with no name, or with the empty
  name, leaves the directory unchanged.
\<close>

theorem Context_new_directory:
  "Context_new nm w = (c, w') \<Longrightarrow>
     c = next_cid w
     \<and> (\<forall>n v. (Context_get w' n = Entry v) =
           (if nm = Some n \<and> n \<noteq> [] then v = c else Context_get w n = Entry v))
     \<and> (nm = None \<or> nm = Some [] \<longrightarrow> repo w' = repo w)"
proof -
  assume a: "Context_new nm w = (c, w')"
  have c: "c = next_cid w"
    using a Context_new_fst [of nm w] by simp
  have r: "repo w' =
     (case nm of None \<Rightarrow> repo w
      | Some n \<Rightarrow> if n \<noteq> [] then obj_set (repo w) n (next_cid w) else repo w)"
    using a Context_new_repo [of nm w] by simp
  have look: "\<forall>n v. (Context_get w' n = Entry v) =
           (if nm = Some n \<and> n \<noteq> [] then v = c else Context_get w n = Entry v)"
    using r c
    by (auto simp: Context_get_def obj_get_Entry_iff entry_at_obj_set split: option.splits)
  have unnamed: "nm = None \<or> nm = Some [] \<longrightarrow> repo w' = repo w"
    using r by auto
  show ?thesis
    using c look unnamed by blast
qed

text \<open>
  Two Contexts named \<^verbatim>\<open>app\<close> and then an unnamed one, from the empty directory:
  \<open>Context.get('app')\<close> is the second.
\<close>

theorem Context_new_directory_witness:
  "fst (Context_new (Some ''app'') (snd (Context_new (Some ''app'') (world0 (0::nat))))) = 1
   \<and> Context_get (snd (Context_new (Some ''app'') (snd (Context_new (Some ''app'') (world0 (0::nat))))))
        ''app'' = Entry 1
   \<and> Context_get (snd (Context_new None
          (snd (Context_new (Some ''app'') (snd (Context_new (Some ''app'') (world0 (0::nat))))))))
        ''app'' = Entry 1"
proof -
  let ?w1 = "snd (Context_new (Some ''app'') (world0 (0::nat)))"
  let ?w2 = "snd (Context_new (Some ''app'') ?w1)"
  let ?w3 = "snd (Context_new None ?w2)"
  have n1: "next_cid ?w1 = 1"
    by (simp add: Context_new_def world0_def Let_def)
  have second: "fst (Context_new (Some ''app'') ?w1) = 1
      \<and> Context_get ?w2 ''app'' = Entry 1"
    using Context_new_directory [where nm = "Some ''app''" and w = ?w1, OF prod.collapse [symmetric]] n1
    by simp
  have third: "Context_get ?w3 ''app'' = Entry 1"
    using Context_new_directory [where nm = None and w = ?w2, OF prod.collapse [symmetric]] second
    by simp
  show ?thesis
    using second third by simp
qed

section \<open>Registration\<close>

lemma test_world_simps:
  "next_pid test_world = 0" "next_cid test_world = 1" "user test_world = 0"
  "providers (ctxs test_world 0) = obj_empty" "repo test_world = obj_empty"
  by (simp_all add: test_world_def Context_new_def world0_def Let_def)

lemma provide_fst: "fst (provide c key w) = next_pid w"
  by (simp add: provide_def Provider_new_def Let_def)

lemma provide_snd:
  "snd (provide c key w) =
     w\<lparr>provs := (provs w)(next_pid w := \<lparr>owner = c, strategy = None, cached = None\<rparr>),
       next_pid := Suc (next_pid w),
       ctxs := (ctxs w)(c := (ctxs w c)\<lparr>providers :=
                 obj_set (providers (ctxs w c)) key (next_pid w)\<rparr>)\<rparr>"
  by (simp add: provide_def Provider_new_def Let_def)

lemma provide_eq:
  assumes "provide c key w = (p, w')"
  shows "p = next_pid w"
    and "w' = w\<lparr>provs := (provs w)(next_pid w := \<lparr>owner = c, strategy = None, cached = None\<rparr>),
       next_pid := Suc (next_pid w),
       ctxs := (ctxs w)(c := (ctxs w c)\<lparr>providers :=
                 obj_set (providers (ctxs w c)) key (next_pid w)\<rparr>)\<rparr>"
  using assms provide_fst [of c key w] provide_snd [of c key w] by simp_all

lemma provide_lookup:
  assumes "provide c key w = (p, w')"
  shows "obj_get ms (providers (ctxs w' c)) key = Entry p"
  using provide_eq [OF assms] by (simp add: obj_get_obj_set_same)

text \<open>
  C6. \<open>provide(key)\<close> creates a new, unconfigured Provider and makes it the one
  registered at \<open>key\<close>: whatever was registered there is replaced (a second \<open>provide(key)\<close>
  registers yet another Provider), the Provider registered at every other key is the
  same as before, and nothing else changes: not the other Contexts, not the Providers
  that existed, not the directory, not the user's state.
\<close>

theorem provide_registry:
  "provide c key w = (p, w') \<Longrightarrow>
     p = next_pid w
     \<and> provs w' p = \<lparr>owner = c, strategy = None, cached = None\<rparr>
     \<and> (\<forall>k v. (obj_get Provider_members (providers (ctxs w' c)) k = Entry v) =
           (if k = key then v = p
            else obj_get Provider_members (providers (ctxs w c)) k = Entry v))
     \<and> (\<forall>p2 w2. provide c key w' = (p2, w2) \<longrightarrow>
           p2 \<noteq> p \<and> obj_get Provider_members (providers (ctxs w2 c)) key = Entry p2)
     \<and> name (ctxs w' c) = name (ctxs w c)
     \<and> (\<forall>c'. c' \<noteq> c \<longrightarrow> ctxs w' c' = ctxs w c')
     \<and> (\<forall>q. q \<noteq> p \<longrightarrow> provs w' q = provs w q)
     \<and> repo w' = repo w \<and> user w' = user w \<and> next_cid w' = next_cid w"
proof -
  assume a: "provide c key w = (p, w')"
  note eq = provide_eq [OF a]
  have fresh: "p = next_pid w \<and> provs w' p = \<lparr>owner = c, strategy = None, cached = None\<rparr>"
    using eq by simp
  have entries: "\<forall>k v. (obj_get Provider_members (providers (ctxs w' c)) k = Entry v) =
           (if k = key then v = p
            else obj_get Provider_members (providers (ctxs w c)) k = Entry v)"
    using eq by (auto simp: obj_get_Entry_iff entry_at_obj_set)
  have again: "\<forall>p2 w2. provide c key w' = (p2, w2) \<longrightarrow>
           p2 \<noteq> p \<and> obj_get Provider_members (providers (ctxs w2 c)) key = Entry p2"
  proof (intro allI impI)
    fix p2 w2
    assume b: "provide c key w' = (p2, w2)"
    have "p2 = next_pid w'"
      using provide_eq(1) [OF b] .
    then have "p2 \<noteq> p"
      using eq by simp
    then show "p2 \<noteq> p \<and> obj_get Provider_members (providers (ctxs w2 c)) key = Entry p2"
      using provide_lookup [OF b] by simp
  qed
  have frame: "name (ctxs w' c) = name (ctxs w c)
     \<and> (\<forall>c'. c' \<noteq> c \<longrightarrow> ctxs w' c' = ctxs w c')
     \<and> (\<forall>q. q \<noteq> p \<longrightarrow> provs w' q = provs w q)
     \<and> repo w' = repo w \<and> user w' = user w \<and> next_cid w' = next_cid w"
    using eq by simp
  show ?thesis
    using fresh entries again frame by blast
qed

text \<open>\<open>provide('a')\<close>, \<open>provide('b')\<close>, \<open>provide('a')\<close> on the tests' Context.\<close>

theorem provide_registry_witness:
  "fst (provide 0 ''a'' (snd (provide 0 ''b'' (snd (provide 0 ''a'' test_world))))) = 2
   \<and> obj_get Provider_members
        (providers (ctxs (snd (provide 0 ''a'' (snd (provide 0 ''b'' (snd (provide 0 ''a'' test_world)))))) 0))
        ''a'' = Entry 2
   \<and> obj_get Provider_members
        (providers (ctxs (snd (provide 0 ''a'' (snd (provide 0 ''b'' (snd (provide 0 ''a'' test_world)))))) 0))
        ''b'' = Entry 1"
proof -
  let ?w1 = "snd (provide 0 ''a'' test_world)"
  let ?w2 = "snd (provide 0 ''b'' ?w1)"
  let ?w3 = "snd (provide 0 ''a'' ?w2)"
  have b: "obj_get Provider_members (providers (ctxs ?w2 0)) ''b'' = Entry 1"
    using provide_lookup [where c = 0 and key = "''b''" and w = ?w1, OF prod.collapse [symmetric]]
    by (simp add: provide_fst provide_snd test_world_simps)
  have n: "next_pid ?w2 = 2"
    by (simp add: provide_snd test_world_simps)
  show ?thesis
    using provide_registry [where c = 0 and key = "''a''" and w = ?w2, OF prod.collapse [symmetric]] b n
    by simp
qed

text \<open>
  The key \<^verbatim>\<open>__proto__\<close>: the Provider becomes the prototype of the registry. It is what
  \<^verbatim>\<open>_providers['__proto__']\<close> yields, it is not among \<^verbatim>\<open>Object.keys\<close>, and its members
  are inherited by the registry from then on.
\<close>

lemma provide_proto_key:
  "obj_get Provider_members (providers (ctxs (snd (provide 0 ''__proto__'' test_world)) 0)) ''__proto__''
     = Entry 0"
  "Object_keys (providers (ctxs (snd (provide 0 ''__proto__'' test_world)) 0)) = []"
  "obj_get Provider_members (providers (ctxs test_world 0)) ''get'' = Absent"
  "obj_get Provider_members (providers (ctxs (snd (provide 0 ''__proto__'' test_world)) 0)) ''get''
     = Inherited"
  by (simp_all add: provide_snd test_world_simps obj_get_def obj_set_def obj_empty_def
        Object_keys_def Object_prototype_names_def Provider_members_def)

section \<open>Resolution of one key\<close>

text \<open>
  C5. After \<open>provide(key)\<close> alone (none of \<open>as\<close>, \<open>with\<close>, \<open>aliasTo\<close> called on the
  Provider), \<open>resolve(key)\<close> returns a promise that is rejected, as it does for a key
  that has no Provider; it does not fulfil with \<open>undefined\<close> or any other value.
\<close>

theorem resolve_unconfigured:
  "provide c key w = (p, w') \<Longrightarrow>
     resolve d c key w' = (Returns (Rejected UnconfiguredProvider), w')"
proof -
  assume a: "provide c key w = (p, w')"
  have look: "obj_get Provider_members (providers (ctxs w' c)) key = Entry p"
    using provide_lookup [OF a] .
  have none: "strategy (provs w' p) = None"
    using provide_eq [OF a] by simp
  show ?thesis
    using look none by (simp add: provider_get_def)
qed

theorem resolve_unconfigured_witness:
  "resolve 0 0 ''a'' (snd (provide 0 ''a'' test_world))
     = (Returns (Rejected UnconfiguredProvider), snd (provide 0 ''a'' test_world))"
  using resolve_unconfigured [where c = 0 and key = "''a''" and w = test_world and d = 0,
      OF prod.collapse [symmetric]]
  by simp

lemma resolve_replay:
  "(case replay r of Throws e \<Rightarrow> (Throws e, w) | Returns x \<Rightarrow> (Returns (Promise_resolve x), w))
     = (r, w)"
  by (cases r) simp_all

lemma resolve_cached:
  assumes "obj_get Provider_members (providers (ctxs w c)) key = Entry p"
    and "strategy (provs w p) = Some (Factory fn)"
    and "cached (provs w p) = Some r"
  shows "resolve d c key w = (r, w)"
  using assms by (simp add: provider_get_def resolve_replay)

lemma resolve_times_cached:
  assumes "obj_get Provider_members (providers (ctxs w c)) key = Entry p"
    and "strategy (provs w p) = Some (Factory fn)"
    and "cached (provs w p) = Some r"
  shows "resolve_times n d c key w = (replicate n r, w)"
proof (induction n)
  case 0
  show ?case by simp
next
  case (Suc n)
  show ?case
    using resolve_cached [OF assms] Suc.IH by simp
qed

lemma resolve_first:
  assumes "obj_get Provider_members (providers (ctxs w c)) key = Entry p"
    and "strategy (provs w p) = Some (Factory fn)"
    and "cached (provs w p) = None"
  shows "resolve d c key w =
     (fst (produce fn (user w)),
      w\<lparr>provs := (provs w)(p := (provs w p)\<lparr>cached := Some (fst (produce fn (user w)))\<rparr>),
        user := snd (produce fn (user w))\<rparr>)"
  using assms by (simp add: provider_get_def resolve_replay split: prod.splits)

lemma snd_produce: "snd (produce fn u) = snd (fn u)"
  by (simp add: produce_def split: prod.splits call.splits)

text \<open>Resolution writes nothing but empty caches and the user's state.\<close>

lemma only_caches_refl: "only_caches w w"
  by (simp add: only_caches_def)

lemma only_caches_trans: "only_caches w w' \<Longrightarrow> only_caches w' w'' \<Longrightarrow> only_caches w w''"
  by (simp add: only_caches_def)

lemma only_caches_produce:
  "cached (provs w p) = None \<Longrightarrow>
     only_caches w (w\<lparr>provs := (provs w)(p := (provs w p)\<lparr>cached := Some r\<rparr>), user := u\<rparr>)"
  by (simp add: only_caches_def)

lemma provider_get_only_caches:
  assumes "\<And>c k s. only_caches s (snd (context_resolve c k s))"
  shows "only_caches w (snd (provider_get context_resolve p w))"
proof (cases "strategy (provs w p)")
  case None
  then show ?thesis by (simp add: provider_get_def only_caches_refl)
next
  case (Some st)
  show ?thesis
  proof (cases st)
    case (Literal x)
    then show ?thesis using Some by (simp add: provider_get_def only_caches_refl)
  next
    case (Factory fn)
    show ?thesis
    proof (cases "cached (provs w p)")
      case None
      obtain r u where pr: "produce fn (user w) = (r, u)"
        by (cases "produce fn (user w)")
      show ?thesis
        using Some Factory None pr only_caches_produce [OF None]
        by (simp add: provider_get_def)
    next
      case (Some r)
      then show ?thesis
        using \<open>strategy (provs w p) = Some st\<close> Factory
        by (simp add: provider_get_def only_caches_refl)
    qed
  next
    case (Alias k)
    obtain r w' where eq: "context_resolve (owner (provs w p)) k w = (r, w')"
      by (cases "context_resolve (owner (provs w p)) k w")
    have "only_caches w w'"
      using assms [of w "owner (provs w p)" k] eq by simp
    then show ?thesis
      using Some Alias eq by (simp add: provider_get_def split: call.splits)
  qed
qed

lemma resolve_only_caches: "only_caches w (snd (resolve d c key w))"
proof (induction d arbitrary: c key w)
  case 0
  have inner: "\<And>c' k s. only_caches s (snd (stack_overflow c' k s))"
    by (simp add: stack_overflow_def only_caches_refl)
  show ?case
  proof (cases "obj_get Provider_members (providers (ctxs w c)) key")
    case (Entry x)
    obtain r w' where eq: "provider_get stack_overflow x w = (r, w')"
      by (cases "provider_get stack_overflow x w")
    have "only_caches w w'"
      using provider_get_only_caches [where context_resolve = stack_overflow, OF inner, of w x] eq
      by simp
    then show ?thesis
      using Entry eq by (simp split: call.splits)
  qed (simp_all add: only_caches_refl)
next
  case (Suc d)
  show ?case
  proof (cases "obj_get Provider_members (providers (ctxs w c)) key")
    case (Entry x)
    obtain r w' where eq: "provider_get (resolve d) x w = (r, w')"
      by (cases "provider_get (resolve d) x w")
    have "only_caches w w'"
      using provider_get_only_caches [where context_resolve = "resolve d", OF Suc.IH, of w x] eq
      by simp
    then show ?thesis
      by (subst resolve.simps)
         (simp add: Entry eq del: resolve.simps split: call.splits)
  qed (simp_all add: only_caches_refl)
qed

lemma promise_map_only_caches:
  assumes "\<And>x s. x \<in> set xs \<Longrightarrow> only_caches s (snd (f x s))"
  shows "only_caches s (snd (promise_map f xs s))"
  using assms
proof (induction xs arbitrary: s)
  case Nil
  show ?case by (simp add: only_caches_refl)
next
  case (Cons x xs)
  obtain r s' where eq: "f x s = (r, s')"
    by (cases "f x s")
  have hs: "only_caches s s'"
    using Cons.prems [of x s] eq by simp
  obtain q s'' where tl: "promise_map f xs s' = (q, s'')"
    by (cases "promise_map f xs s'")
  have "only_caches s' s''"
    using Cons.IH [of s'] Cons.prems tl by simp
  then have ht: "only_caches s s''"
    using hs only_caches_trans by blast
  show ?case
    using eq tl hs ht by (simp split: call.splits promise.splits)
qed

lemma resolveAll_only_caches: "only_caches w (snd (resolveAll d c cnd w))"
proof (induction d c cnd w rule: resolveAll.induct)
  case (1 d c cs w)
  obtain q w' where eq: "promise_map (resolveAll d c) cs w = (q, w')"
    by (cases "promise_map (resolveAll d c) cs w")
  have "only_caches w (snd (promise_map (resolveAll d c) cs w))"
    using promise_map_only_caches [where f = "resolveAll d c" and xs = cs] "1.IH" by blast
  then show ?case
    using eq by simp
next
  case (2 d c re w)
  obtain q w' where eq: "promise_map (resolve d c) (filter re (Object_keys (providers (ctxs w c)))) w = (q, w')"
    by (cases "promise_map (resolve d c) (filter re (Object_keys (providers (ctxs w c)))) w")
  have "only_caches w (snd (promise_map (resolve d c) (filter re (Object_keys (providers (ctxs w c)))) w))"
    using promise_map_only_caches [where f = "resolve d c"] resolve_only_caches by blast
  then show ?case
    using eq by simp
next
  case (3 d c f w)
  obtain q w' where eq: "promise_map (resolve d c) (filter f (Object_keys (providers (ctxs w c)))) w = (q, w')"
    by (cases "promise_map (resolve d c) (filter f (Object_keys (providers (ctxs w c)))) w")
  have "only_caches w (snd (promise_map (resolve d c) (filter f (Object_keys (providers (ctxs w c)))) w))"
    using promise_map_only_caches [where f = "resolve d c"] resolve_only_caches by blast
  then show ?case
    using eq by simp
next
  case (4 d c w)
  obtain q w' where eq: "promise_map (resolve d c) (Object_keys (providers (ctxs w c))) w = (q, w')"
    by (cases "promise_map (resolve d c) (Object_keys (providers (ctxs w c))) w")
  have "only_caches w (snd (promise_map (resolve d c) (Object_keys (providers (ctxs w c))) w))"
    using promise_map_only_caches [where f = "resolve d c"] resolve_only_caches by blast
  then show ?case
    using eq by simp
next
  case (5 d c w)
  obtain q w' where eq: "promise_map (resolve d c) (Object_keys (providers (ctxs w c))) w = (q, w')"
    by (cases "promise_map (resolve d c) (Object_keys (providers (ctxs w c))) w")
  have "only_caches w (snd (promise_map (resolve d c) (Object_keys (providers (ctxs w c))) w))"
    using promise_map_only_caches [where f = "resolve d c"] resolve_only_caches by blast
  then show ?case
    using eq by simp
next
  case (6 d c w)
  show ?case by (simp add: only_caches_refl)
next
  case (7 d c w)
  show ?case by (simp add: only_caches_refl)
next
  case (8 d c key w)
  obtain r w' where eq: "resolve d c key w = (r, w')"
    by (cases "resolve d c key w")
  have "only_caches w w'"
    using resolve_only_caches [of w d c key] eq by simp
  then show ?case
    using eq by (simp del: resolve.simps split: call.splits)
qed


lemma using_cond_only_caches: "only_caches w (snd (using_cond d c cnd consumer ownArgs w))"
proof -
  obtain r w' where eq: "resolveAll d c cnd w = (r, w')"
    by (cases "resolveAll d c cnd w")
  have oc: "only_caches w w'"
    using resolveAll_only_caches [of w d c cnd] eq by simp
  then have "\<And>u. only_caches w (w'\<lparr>user := u\<rparr>)"
    by (simp add: only_caches_def)
  then show ?thesis
    using eq oc
    by (simp add: using_cond_def del: resolveAll.simps
          split: call.splits promise.splits prod.splits)
qed

text \<open>
  C3. After \<open>provide(key).with(factory)\<close>, any number \<open>n + 1\<close> of successive
  \<open>resolve(key)\<close> calls leaves the user's state as one invocation of the factory leaves
  it, and every call has the outcome of that one invocation: the factory is invoked by
  the first call and by no later one. From then on, in every state that further
  resolutions can lead to (\<open>only_caches\<close>), \<open>resolve(key)\<close> has that outcome and changes
  nothing.
\<close>

theorem factory_invoked_once:
  "provide c key w0 = (p, w1) \<Longrightarrow> provider_with p fn w1 = (p', w2)
     \<Longrightarrow> resolve_times (Suc n) d c key w2 = (rs, w3)
     \<Longrightarrow> user w3 = snd (fn (user w0))
         \<and> rs = replicate (Suc n) (fst (produce fn (user w0)))
         \<and> (\<forall>wx dx. only_caches w3 wx \<longrightarrow>
               resolve dx c key wx = (fst (produce fn (user w0)), wx))"
proof -
  assume a: "provide c key w0 = (p, w1)"
    and b: "provider_with p fn w1 = (p', w2)"
    and r: "resolve_times (Suc n) d c key w2 = (rs, w3)"
  have w2: "w2 = set_strategy p (Factory fn) w1"
    using b by (auto simp: provider_with_def)
  have look: "obj_get Provider_members (providers (ctxs w2 c)) key = Entry p"
    using provide_lookup [OF a] w2 by (simp add: set_strategy_def)
  have strat: "strategy (provs w2 p) = Some (Factory fn)"
    using w2 by (simp add: set_strategy_def)
  have fresh: "cached (provs w2 p) = None"
    using provide_eq [OF a] w2 by (simp add: set_strategy_def)
  have u: "user w2 = user w0"
    using provide_eq [OF a] w2 by (simp add: set_strategy_def)
  define out where "out = fst (produce fn (user w2))"
  define wa where "wa = w2\<lparr>provs := (provs w2)(p := (provs w2 p)\<lparr>cached := Some out\<rparr>),
        user := snd (produce fn (user w2))\<rparr>"
  have first: "resolve d c key w2 = (out, wa)"
    using resolve_first [OF look strat fresh] by (simp add: out_def wa_def)
  have rest: "resolve_times n d c key wa = (replicate n out, wa)"
    by (rule resolve_times_cached [where p = p and fn = fn])
       (use look strat in \<open>simp_all add: wa_def\<close>)
  have "resolve_times (Suc n) d c key w2 = (out # replicate n out, wa)"
    using first rest by simp
  then have rs: "rs = replicate (Suc n) out" and w3: "w3 = wa"
    using r by simp_all
  have later: "\<forall>wx dx. only_caches w3 wx \<longrightarrow> resolve dx c key wx = (out, wx)"
  proof (intro allI impI)
    fix wx dx
    assume oc: "only_caches w3 wx"
    have l: "obj_get Provider_members (providers (ctxs wx c)) key = Entry p"
      using oc look w3 by (simp add: only_caches_def wa_def)
    have st: "strategy (provs wx p) = Some (Factory fn)"
      using oc strat w3 by (simp add: only_caches_def wa_def)
    have ca: "cached (provs wx p) = Some out"
      using oc w3 by (simp add: only_caches_def wa_def)
    show "resolve dx c key wx = (out, wx)"
      using resolve_cached [OF l st ca] .
  qed
  show ?thesis
    using rs w3 later u by (simp add: wa_def out_def snd_produce)
qed

text \<open>
  The test \<^verbatim>\<open>Memoized resolve\<close>: the factory is \<^verbatim>\<open>() => { count++; }\<close>, and after two
  calls of \<open>resolve\<close> the counter is 1.
\<close>

theorem factory_invoked_once_witness:
  "user (snd (resolve_times (Suc (Suc 0)) 0 0 ''test-key''
          (snd (provider_with 0 (\<lambda>count. (Returns (Plain JUndefined), Suc count))
             (snd (provide 0 ''test-key'' test_world)))))) = 1
   \<and> fst (resolve_times (Suc (Suc 0)) 0 0 ''test-key''
          (snd (provider_with 0 (\<lambda>count. (Returns (Plain JUndefined), Suc count))
             (snd (provide 0 ''test-key'' test_world)))))
       = [Returns (Fulfilled JUndefined), Returns (Fulfilled JUndefined)]"
proof -
  let ?fn = "\<lambda>count::nat. (Returns (Plain JUndefined), Suc count)"
  let ?w1 = "snd (provide 0 ''test-key'' test_world)"
  have p: "fst (provide 0 ''test-key'' test_world) = 0"
    by (simp add: provide_fst test_world_simps)
  have w: "provider_with 0 ?fn ?w1 = (0, snd (provider_with 0 ?fn ?w1))"
    by (simp add: provider_with_def)
  have a: "provide 0 ''test-key'' test_world = (0, ?w1)"
    using p prod.collapse [of "provide 0 ''test-key'' test_world"] by simp
  note once = factory_invoked_once [where n = "Suc 0" and d = 0, OF a w prod.collapse [symmetric]]
  have u: "user (snd (resolve_times (Suc (Suc 0)) 0 0 ''test-key'' (snd (provider_with 0 ?fn ?w1))))
      = snd (?fn (user test_world))"
    using once [THEN conjunct1] .
  have rs: "fst (resolve_times (Suc (Suc 0)) 0 0 ''test-key'' (snd (provider_with 0 ?fn ?w1)))
      = replicate (Suc (Suc 0)) (fst (produce ?fn (user test_world)))"
    using once [THEN conjunct2, THEN conjunct1] .
  show ?thesis
    unfolding u rs by (simp add: test_world_simps produce_def)
qed

section \<open>Resolution of a condition\<close>

lemma foldl_append_concat: "foldl (\<lambda>acc item. acc @ item) a xss = a @ concat xss"
  by (induction xss arbitrary: a) simp_all

lemma promise_filter_Fulfilled:
  "promise_filter f p = Fulfilled vs \<Longrightarrow> \<exists>xs. p = Fulfilled xs \<and> vs = filter f xs"
  by (cases p) simp_all

lemma resolveAll_truthy:
  "resolveAll d c cnd w = (Returns (Fulfilled vs), w') \<Longrightarrow> list_all truthy vs"
proof (cases cnd)
  case (CKey key)
  assume "resolveAll d c cnd w = (Returns (Fulfilled vs), w')"
  then obtain p where "promise_filter truthy p = Fulfilled vs"
    using CKey by (auto split: prod.splits call.splits)
  then show ?thesis
    using promise_filter_Fulfilled by (fastforce simp: list_all_iff)
qed (auto split: prod.splits dest!: promise_filter_Fulfilled simp: list_all_iff)

lemma resolveAll_flat:
  "is_flat cnd \<Longrightarrow>
     resolveAll d c cnd w =
       (case promise_map (resolve d c) (selected_keys (providers (ctxs w c)) cnd) w of
          (p, w') \<Rightarrow> (Returns (promise_filter truthy p), w'))"
  by (cases cnd) (simp_all add: is_flat_def selected_keys_def)

lemma promise_map_append:
  "promise_map f (xs @ ys) s =
     (case promise_map f xs s of
        (Rejected e, s') \<Rightarrow> (Rejected e, s')
      | (Fulfilled vs, s') \<Rightarrow>
          (case promise_map f ys s' of
             (Rejected e, s'') \<Rightarrow> (Rejected e, s'')
           | (Fulfilled ws, s'') \<Rightarrow> (Fulfilled (vs @ ws), s'')))"
  by (induction xs arbitrary: s) (auto split: prod.splits call.splits promise.splits)

lemma promise_map_first_failure:
  assumes "promise_map f xs s = (Fulfilled vs, s1)"
    and "f x s1 = (r, s2)"
    and "r = Throws e \<or> r = Returns (Rejected e)"
  shows "promise_map f (xs @ x # ys) s = (Rejected e, s2)"
  using assms by (auto simp: promise_map_append)

lemma promise_map_length:
  "promise_map f xs s = (Fulfilled vs, s') \<Longrightarrow> length vs = length xs"
  by (induction xs arbitrary: s vs) (auto split: prod.splits call.splits promise.splits)

lemma promise_map_all:
  assumes "\<And>x s0 y s1. x \<in> set xs \<Longrightarrow> f x s0 = (Returns (Fulfilled y), s1) \<Longrightarrow> P y"
  shows "promise_map f xs s = (Fulfilled ys, s') \<Longrightarrow> list_all P ys"
  using assms
proof (induction xs arbitrary: s ys)
  case Nil
  then show ?case by simp
next
  case (Cons x xs)
  from Cons.prems(1) obtain y s1 zs where
    h: "f x s = (Returns (Fulfilled y), s1)" and t: "promise_map f xs s1 = (Fulfilled zs, s')"
    and ys: "ys = y # zs"
    by (auto split: prod.splits call.splits promise.splits)
  have "P y"
    using Cons.prems(2) [of x s y s1] h by simp
  moreover have "list_all P zs"
  proof (rule Cons.IH [OF t])
    fix x' s0 y' s1'
    assume "x' \<in> set xs" and "f x' s0 = (Returns (Fulfilled y'), s1')"
    then show "P y'"
      using Cons.prems(2) [of x' s0 y' s1'] by simp
  qed
  ultimately show ?case
    using ys by simp
qed

lemma filter_concat_truthy:
  "list_all (list_all truthy) vss \<Longrightarrow> filter truthy (concat vss) = concat vss"
  by (induction vss) (simp_all add: list_all_iff)

lemma resolveAll_array:
  "resolveAll d c (CArray cs) w =
     (case promise_map (resolveAll d c) cs w of
        (Fulfilled vss, w') \<Rightarrow> (Returns (Fulfilled (concat vss)), w')
      | (Rejected e, w') \<Rightarrow> (Returns (Rejected e), w'))"
proof (cases "promise_map (resolveAll d c) cs w")
  case (Pair p w')
  show ?thesis
  proof (cases p)
    case (Fulfilled vss)
    have "list_all (list_all truthy) vss"
      using promise_map_all [where f = "resolveAll d c" and P = "list_all truthy"]
        Pair Fulfilled resolveAll_truthy by blast
    then show ?thesis
      using Pair Fulfilled by (simp add: foldl_append_concat filter_concat_truthy)
  next
    case (Rejected e)
    then show ?thesis
      using Pair by simp
  qed
qed


lemma resolveAll_key:
  "resolve d c key w = (Returns (Fulfilled v), w') \<Longrightarrow>
     resolveAll d c (CKey key) w = (Returns (Fulfilled (if truthy v then [v] else [])), w')"
  by simp

lemma Object_keys_single:
  "\<not> is_array_index key \<Longrightarrow> Object_keys \<lparr>own = [(key, v)], proto = None\<rparr> = [key]"
  by (simp add: Object_keys_def)

lemma not_index_a: "\<not> is_array_index ''a''"
  by (simp add: is_array_index_def is_digit_def)

text \<open>
  C1. Every list that \<open>resolveAll\<close> fulfils with, at every level of the recursion, holds
  truthy values only: it is the list of the resolved values (of the selected keys, of
  the one key, of the sub-conditions' lists) with the falsy ones dropped. After
  \<open>provide('a').as(0)\<close> on a Context with no other Provider, \<open>resolveAll()\<close> fulfils with
  the empty list.
\<close>

theorem resolveAll_drops_falsy:
  "(resolveAll d c cnd w = (Returns (Fulfilled vs), w') \<longrightarrow> list_all truthy vs)
   \<and> (is_flat cnd \<longrightarrow>
        promise_map (resolve d c) (selected_keys (providers (ctxs w c)) cnd) w = (Fulfilled vals, wx)
        \<longrightarrow> resolveAll d c cnd w = (Returns (Fulfilled (filter truthy vals)), wx))
   \<and> (resolve d c key w = (Returns (Fulfilled v), wy) \<longrightarrow>
        resolveAll d c (CKey key) w = (Returns (Fulfilled (if truthy v then [v] else [])), wy))
   \<and> (promise_map (resolveAll d c) cs w = (Fulfilled vss, wz) \<longrightarrow>
        resolveAll d c (CArray cs) w = (Returns (Fulfilled (filter truthy (concat vss))), wz))
   \<and> (providers (ctxs w c) = obj_empty \<longrightarrow> provide c ''a'' w = (p, wa)
        \<longrightarrow> provider_as p (Plain (JNum 0)) wa = (p', wb)
        \<longrightarrow> resolveAll d c CUndefined wb = (Returns (Fulfilled []), wb))"
proof -
  have level: "resolveAll d c cnd w = (Returns (Fulfilled vs), w') \<longrightarrow> list_all truthy vs"
    using resolveAll_truthy by blast
  have flat: "is_flat cnd \<longrightarrow>
        promise_map (resolve d c) (selected_keys (providers (ctxs w c)) cnd) w = (Fulfilled vals, wx)
        \<longrightarrow> resolveAll d c cnd w = (Returns (Fulfilled (filter truthy vals)), wx)"
    by (simp add: resolveAll_flat)
  have single: "resolve d c key w = (Returns (Fulfilled v), wy) \<longrightarrow>
        resolveAll d c (CKey key) w = (Returns (Fulfilled (if truthy v then [v] else [])), wy)"
    using resolveAll_key by blast
  have array: "promise_map (resolveAll d c) cs w = (Fulfilled vss, wz) \<longrightarrow>
        resolveAll d c (CArray cs) w = (Returns (Fulfilled (filter truthy (concat vss))), wz)"
    by (simp add: foldl_append_concat)
  have zero: "providers (ctxs w c) = obj_empty \<longrightarrow> provide c ''a'' w = (p, wa)
        \<longrightarrow> provider_as p (Plain (JNum 0)) wa = (p', wb)
        \<longrightarrow> resolveAll d c CUndefined wb = (Returns (Fulfilled []), wb)"
  proof (intro impI)
    assume e: "providers (ctxs w c) = obj_empty"
      and a: "provide c ''a'' w = (p, wa)"
      and b: "provider_as p (Plain (JNum 0)) wa = (p', wb)"
    have wb: "wb = set_strategy p (Literal (Plain (JNum 0))) wa"
      using b by (auto simp: provider_as_def)
    have keys: "Object_keys (providers (ctxs wb c)) = [''a'']"
      using provide_eq [OF a] wb e
      by (simp add: set_strategy_def obj_set_def obj_empty_def Object_keys_single not_index_a)
    have look: "obj_get Provider_members (providers (ctxs wb c)) ''a'' = Entry p"
      using provide_lookup [OF a] wb by (simp add: set_strategy_def)
    have strat: "strategy (provs wb p) = Some (Literal (Plain (JNum 0)))"
      using wb by (simp add: set_strategy_def)
    have "resolve d c ''a'' wb = (Returns (Fulfilled (JNum 0)), wb)"
      using look strat by (simp add: provider_get_def)
    then show "resolveAll d c CUndefined wb = (Returns (Fulfilled []), wb)"
      using keys by simp
  qed
  show ?thesis
    using level flat single array zero by blast
qed

text \<open>The tests' Context after \<open>provide('a').as(0)\<close>: \<open>resolveAll()\<close> and \<open>resolveAll('a')\<close>.\<close>

theorem resolveAll_drops_falsy_witness:
  "resolveAll 0 0 CUndefined (snd (provider_as 0 (Plain (JNum 0)) (snd (provide 0 ''a'' test_world))))
     = (Returns (Fulfilled []), snd (provider_as 0 (Plain (JNum 0)) (snd (provide 0 ''a'' test_world))))
   \<and> resolveAll 0 0 (CKey ''a'') (snd (provider_as 0 (Plain (JNum 0)) (snd (provide 0 ''a'' test_world))))
     = (Returns (Fulfilled []), snd (provider_as 0 (Plain (JNum 0)) (snd (provide 0 ''a'' test_world))))"
proof -
  let ?wa = "snd (provide 0 ''a'' test_world)"
  let ?wb = "snd (provider_as 0 (Plain (JNum 0)) ?wa)"
  have a: "provide 0 ''a'' test_world = (0, ?wa)"
    by (simp add: prod_eq_iff provide_fst test_world_simps)
  have b: "provider_as 0 (Plain (JNum 0)) ?wa = (0, ?wb)"
    by (simp add: provider_as_def)
  have r: "resolve 0 0 ''a'' ?wb = (Returns (Fulfilled (JNum 0)), ?wb)"
    by (simp add: provider_get_def provider_as_def set_strategy_def provide_snd obj_get_obj_set_same
          test_world_simps)
  show ?thesis
    using resolveAll_drops_falsy [where d = 0 and c = 0 and w = test_world and p = 0 and wa = ?wa
        and p' = 0 and wb = ?wb and cnd = CUndefined and vs = "[]" and w' = test_world
        and vals = "[]" and wx = test_world and key = "''a''" and v = JUndefined and wy = test_world
        and cs = "[]" and vss = "[]" and wz = test_world]
      resolveAll_drops_falsy [where d = 0 and c = 0 and w = ?wb and key = "''a''" and v = "JNum 0"
        and wy = ?wb and cnd = CNull and vs = "[]" and w' = ?wb and vals = "[]" and wx = ?wb
        and cs = "[]" and vss = "[]" and wz = ?wb and p = 0 and wa = ?wb and p' = 0 and wb = ?wb]
      a b r
    by (simp add: test_world_simps)
qed


lemma promise_map_single:
  "promise_map f [x] s =
     (case f x s of
        (Throws e, s') \<Rightarrow> (Rejected e, s')
      | (Returns (Rejected e), s') \<Rightarrow> (Rejected e, s')
      | (Returns (Fulfilled y), s') \<Rightarrow> (Fulfilled [y], s'))"
  by (simp split: prod.splits call.splits promise.splits)

lemma resolveAll_array_single:
  "resolveAll d c (CArray [x]) w =
     (case resolveAll d c x w of
        (Throws e, wa) \<Rightarrow> (Returns (Rejected e), wa)
      | (Returns pr, wa) \<Rightarrow> (Returns pr, wa))"
  unfolding resolveAll_array promise_map_single
  by (simp split: prod.splits call.splits promise.splits)

lemma promise_map_pair:
  "f x s = (Returns (Fulfilled a), sa) \<Longrightarrow> f y sa = (Returns (Fulfilled b), sb)
     \<Longrightarrow> promise_map f [x, y] s = (Fulfilled [a, b], sb)"
  by simp

text \<open>
  C7. Whenever \<open>resolveAll(key)\<close> returns a promise, \<open>resolveAll([key])\<close> returns the same
  promise and leaves the same state. When the key resolves to \<open>v\<close>, both fulfil with the
  same list: the one-element list \<open>[v]\<close> when \<open>v\<close> is truthy, the empty list when it is
  falsy. For an array whose sub-conditions all fulfil, \<open>resolveAll\<close> maps \<open>resolveAll\<close>
  over the sub-conditions in order and fulfils with the concatenation of their lists, in
  that order.
\<close>

theorem resolveAll_array_same_list:
  "(resolveAll d c (CKey key) w = (Returns pr, wb) \<longrightarrow>
        resolveAll d c (CArray [CKey key]) w = (Returns pr, wb))
   \<and> (resolve d c key w = (Returns (Fulfilled v), wb) \<longrightarrow>
        resolveAll d c (CKey key) w = (Returns (Fulfilled (if truthy v then [v] else [])), wb)
        \<and> resolveAll d c (CArray [CKey key]) w
            = (Returns (Fulfilled (if truthy v then [v] else [])), wb))
   \<and> (resolveAll d c x w = (Returns (Fulfilled xs), wx) \<longrightarrow>
        resolveAll d c y wx = (Returns (Fulfilled ys), wy) \<longrightarrow>
        resolveAll d c (CArray [x, y]) w = (Returns (Fulfilled (xs @ ys)), wy))
   \<and> (promise_map (resolveAll d c) cs w = (Fulfilled vss, wz) \<longrightarrow>
        resolveAll d c (CArray cs) w = (Returns (Fulfilled (concat vss)), wz))"
proof -
  have one: "resolveAll d c (CKey key) w = (Returns pr, wb) \<longrightarrow>
        resolveAll d c (CArray [CKey key]) w = (Returns pr, wb)"
    by (simp add: resolveAll_array_single del: resolveAll.simps)
  have same: "resolve d c key w = (Returns (Fulfilled v), wb) \<longrightarrow>
        resolveAll d c (CKey key) w = (Returns (Fulfilled (if truthy v then [v] else [])), wb)
        \<and> resolveAll d c (CArray [CKey key]) w
            = (Returns (Fulfilled (if truthy v then [v] else [])), wb)"
  proof (intro impI)
    assume r: "resolve d c key w = (Returns (Fulfilled v), wb)"
    have k: "resolveAll d c (CKey key) w
        = (Returns (Fulfilled (if truthy v then [v] else [])), wb)"
      using resolveAll_key [OF r] .
    show "resolveAll d c (CKey key) w = (Returns (Fulfilled (if truthy v then [v] else [])), wb)
        \<and> resolveAll d c (CArray [CKey key]) w
            = (Returns (Fulfilled (if truthy v then [v] else [])), wb)"
      unfolding resolveAll_array_single k by simp
  qed
  have general: "promise_map (resolveAll d c) cs w = (Fulfilled vss, wz) \<longrightarrow>
        resolveAll d c (CArray cs) w = (Returns (Fulfilled (concat vss)), wz)"
    by (simp add: resolveAll_array del: resolveAll.simps)
  have two: "resolveAll d c x w = (Returns (Fulfilled xs), wx) \<longrightarrow>
        resolveAll d c y wx = (Returns (Fulfilled ys), wy) \<longrightarrow>
        resolveAll d c (CArray [x, y]) w = (Returns (Fulfilled (xs @ ys)), wy)"
  proof (intro impI)
    assume a: "resolveAll d c x w = (Returns (Fulfilled xs), wx)"
      and b: "resolveAll d c y wx = (Returns (Fulfilled ys), wy)"
    have "promise_map (resolveAll d c) [x, y] w = (Fulfilled [xs, ys], wy)"
      using promise_map_pair [where f = "resolveAll d c", OF a b] .
    then show "resolveAll d c (CArray [x, y]) w = (Returns (Fulfilled (xs @ ys)), wy)"
      by (simp add: resolveAll_array del: resolveAll.simps)
  qed
  show ?thesis
    using one same two general by blast
qed

text \<open>
  The list is not always a single-element one: after \<open>provide('a').as(0)\<close> the key
  \<^verbatim>\<open>'a'\<close> is registered, and \<open>resolveAll(['a'])\<close> and \<open>resolveAll('a')\<close> both fulfil with
  the empty list.
\<close>

lemma zero_world_resolve:
  "resolve 0 0 ''a'' (snd (provider_as 0 (Plain (JNum 0)) (snd (provide 0 ''a'' test_world))))
     = (Returns (Fulfilled (JNum 0)),
        snd (provider_as 0 (Plain (JNum 0)) (snd (provide 0 ''a'' test_world))))"
  by (simp add: provider_get_def provider_as_def set_strategy_def provide_snd obj_get_obj_set_same
        test_world_simps)

theorem resolveAll_single_element_counterexample:
  "obj_get Provider_members
      (providers (ctxs (snd (provider_as 0 (Plain (JNum 0)) (snd (provide 0 ''a'' test_world)))) 0))
      ''a'' = Entry 0
   \<and> resolveAll 0 0 (CArray [CKey ''a''])
        (snd (provider_as 0 (Plain (JNum 0)) (snd (provide 0 ''a'' test_world))))
     = (Returns (Fulfilled []),
        snd (provider_as 0 (Plain (JNum 0)) (snd (provide 0 ''a'' test_world))))
   \<and> resolveAll 0 0 (CKey ''a'')
        (snd (provider_as 0 (Plain (JNum 0)) (snd (provide 0 ''a'' test_world))))
     = (Returns (Fulfilled []),
        snd (provider_as 0 (Plain (JNum 0)) (snd (provide 0 ''a'' test_world))))
   \<and> \<not> (\<exists>v. fst (resolveAll 0 0 (CArray [CKey ''a''])
              (snd (provider_as 0 (Plain (JNum 0)) (snd (provide 0 ''a'' test_world)))))
            = Returns (Fulfilled [v]))"
proof -
  let ?w = "snd (provider_as 0 (Plain (JNum 0)) (snd (provide 0 ''a'' test_world)))"
  have reg: "obj_get Provider_members (providers (ctxs ?w 0)) ''a'' = Entry 0"
    by (simp add: provider_as_def set_strategy_def provide_snd obj_get_obj_set_same
          test_world_simps)
  have k: "resolveAll 0 0 (CKey ''a'') ?w = (Returns (Fulfilled []), ?w)"
    using resolveAll_key [OF zero_world_resolve] by (simp only: truthy.simps) simp
  have a: "resolveAll 0 0 (CArray [CKey ''a'']) ?w = (Returns (Fulfilled []), ?w)"
    unfolding resolveAll_array_single k by simp
  have n: "\<not> (\<exists>v. fst (resolveAll 0 0 (CArray [CKey ''a'']) ?w) = Returns (Fulfilled [v]))"
    unfolding a by simp
  show ?thesis
    using reg k a n by blast
qed

text \<open>The test \<^verbatim>\<open>Resolve by array\<close>, and the same key twice in one array.\<close>

theorem resolveAll_array_same_list_witness:
  "resolveAll 0 0 (CArray [CKey ''test-key'']) (given_value (Plain (JStr ''test-value'')))
     = (Returns (Fulfilled [JStr ''test-value'']), given_value (Plain (JStr ''test-value'')))
   \<and> resolveAll 0 0 (CKey ''test-key'') (given_value (Plain (JStr ''test-value'')))
     = (Returns (Fulfilled [JStr ''test-value'']), given_value (Plain (JStr ''test-value'')))
   \<and> resolveAll 0 0 (CArray [CKey ''test-key'', CKey ''test-key''])
        (given_value (Plain (JStr ''test-value'')))
     = (Returns (Fulfilled [JStr ''test-value'', JStr ''test-value'']),
        given_value (Plain (JStr ''test-value'')))"
proof -
  let ?w = "given_value (Plain (JStr ''test-value''))"
  have r: "resolve 0 0 ''test-key'' ?w = (Returns (Fulfilled (JStr ''test-value'')), ?w)"
    by (simp add: given_value_def provider_get_def provider_as_def set_strategy_def provide_snd
          obj_get_obj_set_same test_world_simps)
  note th = resolveAll_array_same_list [where d = 0 and c = 0 and key = "''test-key''" and w = ?w
        and v = "JStr ''test-value''" and wb = ?w and pr = "Fulfilled [JStr ''test-value'']"
        and x = "CKey ''test-key''" and y = "CKey ''test-key''" and xs = "[JStr ''test-value'']"
        and ys = "[JStr ''test-value'']" and wx = ?w and wy = ?w and cs = "[]" and vss = "[]"
        and wz = ?w]
  have both: "resolveAll 0 0 (CKey ''test-key'') ?w = (Returns (Fulfilled [JStr ''test-value'']), ?w)
      \<and> resolveAll 0 0 (CArray [CKey ''test-key'']) ?w
          = (Returns (Fulfilled [JStr ''test-value'']), ?w)"
    using th [THEN conjunct2, THEN conjunct1] r by (simp del: resolveAll.simps resolve.simps)
  have two: "resolveAll 0 0 (CArray [CKey ''test-key'', CKey ''test-key'']) ?w
      = (Returns (Fulfilled [JStr ''test-value'', JStr ''test-value'']), ?w)"
    using th [THEN conjunct2, THEN conjunct2, THEN conjunct1] both
    by (simp del: resolveAll.simps resolve.simps)
  show ?thesis
    using both two by (simp del: resolveAll.simps resolve.simps)
qed


section \<open>Injection\<close>

text \<open>
  C8. A call \<open>f(...ownArgs)\<close> of the function that \<open>using(cond, consumer)\<close> returns runs
  \<open>resolveAll(cond)\<close> in the state of the call; when that fulfils with \<open>vs\<close>, the consumer
  is called once, with \<open>vs\<close> followed by \<open>ownArgs\<close>, and \<open>f\<close> returns the promise of its
  result; when \<open>resolveAll\<close> fails, the consumer is not called and \<open>f\<close> fails the same way.
  Nothing of an earlier call is kept: the statement holds in whatever state \<open>f\<close> is called.
\<close>

theorem using_cond_injects:
  "(resolveAll d c cnd w = (Returns (Fulfilled vs), wa) \<longrightarrow>
      consumer (vs @ ownArgs) (user wa) = (out, u) \<longrightarrow>
      using_cond d c cnd consumer ownArgs w =
        ((case out of Throws e \<Rightarrow> Returns (Rejected e) | Returns x \<Rightarrow> Returns (Promise_resolve x)),
         wa\<lparr>user := u\<rparr>))
   \<and> (resolveAll d c cnd w = (Returns (Rejected e), wb) \<longrightarrow>
        using_cond d c cnd consumer ownArgs w = (Returns (Rejected e), wb))
   \<and> (resolveAll d c cnd w = (Throws e, wb) \<longrightarrow>
        using_cond d c cnd consumer ownArgs w = (Throws e, wb))"
  by (cases out) (simp_all add: using_cond_def)


lemma log_world_simps:
  "next_pid log_world = 0" "user log_world = []" "providers (ctxs log_world 0) = obj_empty"
  by (simp_all add: log_world_def Context_new_def world0_def Let_def)

text \<open>
  Two calls of one wrapped function, with \<open>provide('a').as(2)\<close> between them: the
  consumer sees the value registered at the time of each call, then the call's own
  argument.
\<close>

theorem using_cond_injects_witness:
  "user (snd (using_cond 0 0 (CKey ''a'') (\<lambda>args log. (Returns (Plain JUndefined), log @ [args]))
           [JStr ''x''] (snd (provider_as 0 (Plain (JNum 1)) (snd (provide 0 ''a'' log_world))))))
     = [[JNum 1, JStr ''x'']]
   \<and> user (snd (using_cond 0 0 (CKey ''a'') (\<lambda>args log. (Returns (Plain JUndefined), log @ [args]))
           [JStr ''y'']
           (snd (provider_as 1 (Plain (JNum 2)) (snd (provide 0 ''a''
           (snd (using_cond 0 0 (CKey ''a'') (\<lambda>args log. (Returns (Plain JUndefined), log @ [args]))
           [JStr ''x''] (snd (provider_as 0 (Plain (JNum 1)) (snd (provide 0 ''a'' log_world))))))))))))
     = [[JNum 1, JStr ''x''], [JNum 2, JStr ''y'']]"
proof -
  let ?rec = "\<lambda>(args::jsval list) (log::jsval list list). (Returns (Plain JUndefined), log @ [args])"
  let ?wa = "snd (provider_as 0 (Plain (JNum 1)) (snd (provide 0 ''a'' log_world)))"
  let ?wb = "snd (using_cond 0 0 (CKey ''a'') ?rec [JStr ''x''] ?wa)"
  let ?wc = "snd (provider_as 1 (Plain (JNum 2)) (snd (provide 0 ''a'' ?wb)))"
  have ra: "resolve 0 0 ''a'' ?wa = (Returns (Fulfilled (JNum 1)), ?wa)"
    by (simp add: provider_get_def provider_as_def set_strategy_def provide_snd obj_get_obj_set_same
          log_world_simps)
  have la: "resolveAll 0 0 (CKey ''a'') ?wa = (Returns (Fulfilled [JNum 1]), ?wa)"
    using resolveAll_key [OF ra] by (simp only: truthy.simps if_True) simp
  have ua: "user ?wa = []"
    by (simp add: provider_as_def set_strategy_def provide_snd log_world_simps)
  have first: "using_cond 0 0 (CKey ''a'') ?rec [JStr ''x''] ?wa
      = (Returns (Fulfilled JUndefined), ?wa\<lparr>user := [[JNum 1, JStr ''x'']]\<rparr>)"
    using using_cond_injects [where d = 0 and c = 0 and cnd = "CKey ''a''" and w = ?wa
        and vs = "[JNum 1]" and wa = ?wa and consumer = ?rec and ownArgs = "[JStr ''x'']"
        and out = "Returns (Plain JUndefined)" and u = "[[JNum 1, JStr ''x'']]"
        and e = UnconfiguredProvider and wb = log_world] la ua
    by (simp del: resolveAll.simps resolve.simps)
  have wb: "?wb = ?wa\<lparr>user := [[JNum 1, JStr ''x'']]\<rparr>"
    using first by simp
  have np: "next_pid ?wb = 1"
    unfolding wb by (simp add: provider_as_def set_strategy_def provide_snd log_world_simps)
  have rc: "resolve 0 0 ''a'' ?wc = (Returns (Fulfilled (JNum 2)), ?wc)"
    using np
    by (simp add: provider_get_def provider_as_def set_strategy_def provide_snd obj_get_obj_set_same
          del: resolveAll.simps)
  have lc: "resolveAll 0 0 (CKey ''a'') ?wc = (Returns (Fulfilled [JNum 2]), ?wc)"
    using resolveAll_key [OF rc] by (simp only: truthy.simps if_True) simp
  have uc: "user ?wc = [[JNum 1, JStr ''x'']]"
    unfolding wb by (simp add: provider_as_def set_strategy_def provide_snd)
  have second: "using_cond 0 0 (CKey ''a'') ?rec [JStr ''y''] ?wc
      = (Returns (Fulfilled JUndefined), ?wc\<lparr>user := [[JNum 1, JStr ''x''], [JNum 2, JStr ''y'']]\<rparr>)"
    using lc uc by (simp add: using_cond_def del: resolveAll.simps resolve.simps)
  show ?thesis
    using first second by simp
qed


section \<open>Where a failure is a synchronous exception\<close>

text \<open>
  What \<open>resolve\<close> does by the three outcomes of \<^verbatim>\<open>this._providers[key]\<close>: nothing
  there, a Provider, or a value inherited from the prototype chain.
\<close>

lemma resolve_absent:
  "obj_get Provider_members (providers (ctxs w c)) key = Absent \<Longrightarrow>
     resolve d c key w =
       (Returns (Rejected (DependencyError (''Cannot find provider for: '' @ key))), w)"
  by (simp add: Promise_reject_def)

lemma resolve_registered:
  "obj_get Provider_members (providers (ctxs w c)) key = Entry p \<Longrightarrow>
     resolve d c key w =
       (case provider_get
               (\<lambda>c' k w'. case d of 0 \<Rightarrow> stack_overflow c' k w' | Suc d' \<Rightarrow> resolve d' c' k w')
               p w of
          (Throws e, w') \<Rightarrow> (Throws e, w')
        | (Returns x, w') \<Rightarrow> (Returns (Promise_resolve x), w'))"
  by simp

lemma resolve_inherited:
  "obj_get Provider_members (providers (ctxs w c)) key = Inherited \<Longrightarrow>
     resolve d c key w = (Throws (TypeError ''provider.get is not a function''), w)"
  by simp

lemma obj_get_empty_toString: "obj_get ms obj_empty ''toString'' = Inherited"
  by (simp add: obj_get_def obj_empty_def Object_prototype_names_def)

lemma obj_get_empty_constructor: "obj_get ms obj_empty ''constructor'' = Inherited"
  by (simp add: obj_get_def obj_empty_def Object_prototype_names_def)

text \<open>
  C2. On a new Context, which has no Provider at all, \<open>resolve('toString')\<close> does not
  return a rejected promise: \<^verbatim>\<open>this._providers['toString']\<close> is the method inherited
  from \<^verbatim>\<open>Object.prototype\<close>, not \<^verbatim>\<open>undefined\<close>, and \<^verbatim>\<open>provider.get()\<close> on it throws a
  TypeError out of \<open>resolve\<close>. A key that names nothing inherited is rejected with the
  DependencyError whose message ends in the key.
\<close>

theorem resolve_inherited_key:
  "resolve d 0 ''toString'' test_world
     = (Throws (TypeError ''provider.get is not a function''), test_world)
   \<and> Object_keys (providers (ctxs test_world 0)) = []
   \<and> (\<forall>p. obj_get Provider_members (providers (ctxs test_world 0)) ''toString'' \<noteq> Entry p)
   \<and> resolve d 0 ''missing'' test_world
     = (Returns (Rejected (DependencyError ''Cannot find provider for: missing'')), test_world)"
proof -
  have inh: "obj_get Provider_members (providers (ctxs test_world 0)) ''toString'' = Inherited"
    by (simp add: test_world_simps obj_get_empty_toString)
  have abs: "obj_get Provider_members (providers (ctxs test_world 0)) ''missing'' = Absent"
    by (simp add: test_world_simps obj_get_def obj_empty_def Object_prototype_names_def
          Provider_members_def)
  have keys: "Object_keys (providers (ctxs test_world 0)) = []"
    by (simp add: test_world_simps Object_keys_def obj_empty_def)
  show ?thesis
    using resolve_inherited [OF inh] resolve_absent [OF abs] inh keys by simp
qed

text \<open>
  C4. \<open>resolve\<close> raises synchronous exceptions: for an inherited name on a new Context,
  and for a registered Provider whose factory raises (here it throws \<^verbatim>\<open>'boom'\<close>), since
  \<^verbatim>\<open>provider.get()\<close> is evaluated before \<^verbatim>\<open>Promise.resolve\<close> is called. \<open>resolveAll\<close> of
  that key and the function made by \<open>using\<close> pass the exception on synchronously.
\<close>

theorem resolve_throws_synchronously:
  "resolve d 0 ''constructor'' test_world
     = (Throws (TypeError ''provider.get is not a function''), test_world)
   \<and> fst (resolve d 0 ''a''
        (snd (provider_with 0 (\<lambda>u. (Throws (Thrown (JStr ''boom'')), u))
           (snd (provide 0 ''a'' test_world)))))
     = Throws (Thrown (JStr ''boom''))
   \<and> fst (resolveAll d 0 (CKey ''a'')
        (snd (provider_with 0 (\<lambda>u. (Throws (Thrown (JStr ''boom'')), u))
           (snd (provide 0 ''a'' test_world)))))
     = Throws (Thrown (JStr ''boom''))
   \<and> fst (using_cond d 0 (CKey ''a'') consumer ownArgs
        (snd (provider_with 0 (\<lambda>u. (Throws (Thrown (JStr ''boom'')), u))
           (snd (provide 0 ''a'' test_world)))))
     = Throws (Thrown (JStr ''boom''))"
proof -
  let ?w = "snd (provider_with 0 (\<lambda>u::nat. (Throws (Thrown (JStr ''boom'')), u))
           (snd (provide 0 ''a'' test_world)))"
  have inh: "obj_get Provider_members (providers (ctxs test_world 0)) ''constructor'' = Inherited"
    by (simp add: test_world_simps obj_get_empty_constructor)
  have r: "fst (resolve d 0 ''a'' ?w) = Throws (Thrown (JStr ''boom''))"
    by (simp add: provider_get_def provider_with_def set_strategy_def provide_snd
          obj_get_obj_set_same test_world_simps produce_def)
  have ra: "fst (resolveAll d 0 (CKey ''a'') ?w) = Throws (Thrown (JStr ''boom''))"
    using r by (cases "resolve d 0 ''a'' ?w") (simp del: resolve.simps)
  have u: "fst (using_cond d 0 (CKey ''a'') consumer ownArgs ?w) = Throws (Thrown (JStr ''boom''))"
    using ra by (cases "resolveAll d 0 (CKey ''a'') ?w")
      (simp add: using_cond_def del: resolve.simps resolveAll.simps)
  show ?thesis
    using resolve_inherited [OF inh] r ra u by simp
qed

text \<open>
  C9. For the single-key condition \<^verbatim>\<open>'toString'\<close> on a new Context the resolution of
  the selected key fails, and \<open>resolveAll\<close> does not return a rejected promise: it throws
  synchronously. The same key inside an array is resolved by the mapper, and the result
  is a rejected promise.
\<close>

theorem resolveAll_key_throws:
  "resolveAll d 0 (CKey ''toString'') test_world
     = (Throws (TypeError ''provider.get is not a function''), test_world)
   \<and> resolveAll d 0 (CArray [CKey ''toString'']) test_world
     = (Returns (Rejected (TypeError ''provider.get is not a function'')), test_world)
   \<and> selected_keys (providers (ctxs test_world 0)) (CKey ''toString'') = [''toString'']"
proof -
  have inh: "obj_get Provider_members (providers (ctxs test_world 0)) ''toString'' = Inherited"
    by (simp add: test_world_simps obj_get_empty_toString)
  have k: "resolveAll d 0 (CKey ''toString'') test_world
     = (Throws (TypeError ''provider.get is not a function''), test_world)"
    using resolve_inherited [OF inh, of d] by (simp del: resolve.simps)
  have a: "resolveAll d 0 (CArray [CKey ''toString'']) test_world
     = (Returns (Rejected (TypeError ''provider.get is not a function'')), test_world)"
    unfolding resolveAll_array_single k by simp
  show ?thesis
    using k a by (simp add: selected_keys_def)
qed

text \<open>
  How a failure travels through \<open>resolveAll\<close>. In a condition whose keys are resolved by
  a mapper, and in an array, a key (sub-condition) that fails after the ones before it
  have fulfilled, by a synchronous exception or by a rejected promise, rejects the whole
  result, and no list is returned. For a single key a rejection is passed on as a
  rejection and an exception as an exception.
\<close>

lemma resolveAll_failure:
  "(is_flat cnd \<longrightarrow> selected_keys (providers (ctxs w c)) cnd = ks @ k # ks'
      \<longrightarrow> promise_map (resolve d c) ks w = (Fulfilled vs, wa)
      \<longrightarrow> resolve d c k wa = (r, wb) \<longrightarrow> (r = Throws e \<or> r = Returns (Rejected e))
      \<longrightarrow> (\<exists>e' w'. resolveAll d c cnd w = (Returns (Rejected e'), w')))
   \<and> (promise_map (resolveAll d c) cs w = (Fulfilled vss, wa)
      \<longrightarrow> resolveAll d c x wa = (ra, wb) \<longrightarrow> (ra = Throws e \<or> ra = Returns (Rejected e))
      \<longrightarrow> (\<exists>e' w'. resolveAll d c (CArray (cs @ x # cs')) w = (Returns (Rejected e'), w')))
   \<and> (resolve d c key w = (Returns (Rejected e), wb)
      \<longrightarrow> resolveAll d c (CKey key) w = (Returns (Rejected e), wb))
   \<and> (resolve d c key w = (Throws e, wb)
      \<longrightarrow> resolveAll d c (CKey key) w = (Throws e, wb))"
proof -
  have flat: "is_flat cnd \<longrightarrow> selected_keys (providers (ctxs w c)) cnd = ks @ k # ks'
      \<longrightarrow> promise_map (resolve d c) ks w = (Fulfilled vs, wa)
      \<longrightarrow> resolve d c k wa = (r, wb) \<longrightarrow> (r = Throws e \<or> r = Returns (Rejected e))
      \<longrightarrow> (\<exists>e' w'. resolveAll d c cnd w = (Returns (Rejected e'), w'))"
  proof (intro impI)
    assume f: "is_flat cnd" and s: "selected_keys (providers (ctxs w c)) cnd = ks @ k # ks'"
      and m: "promise_map (resolve d c) ks w = (Fulfilled vs, wa)"
      and r: "resolve d c k wa = (r, wb)" and e: "r = Throws e \<or> r = Returns (Rejected e)"
    have "promise_map (resolve d c) (ks @ k # ks') w = (Rejected e, wb)"
      using promise_map_first_failure [OF m r e] .
    then have "resolveAll d c cnd w = (Returns (Rejected e), wb)"
      using f s by (simp add: resolveAll_flat)
    then show "\<exists>e' w'. resolveAll d c cnd w = (Returns (Rejected e'), w')"
      by blast
  qed
  have array: "promise_map (resolveAll d c) cs w = (Fulfilled vss, wa)
      \<longrightarrow> resolveAll d c x wa = (ra, wb) \<longrightarrow> (ra = Throws e \<or> ra = Returns (Rejected e))
      \<longrightarrow> (\<exists>e' w'. resolveAll d c (CArray (cs @ x # cs')) w = (Returns (Rejected e'), w'))"
  proof (intro impI)
    assume m: "promise_map (resolveAll d c) cs w = (Fulfilled vss, wa)"
      and r: "resolveAll d c x wa = (ra, wb)" and e: "ra = Throws e \<or> ra = Returns (Rejected e)"
    have "promise_map (resolveAll d c) (cs @ x # cs') w = (Rejected e, wb)"
      using promise_map_first_failure [OF m r e] .
    then have "resolveAll d c (CArray (cs @ x # cs')) w = (Returns (Rejected e), wb)"
      by (simp add: resolveAll_array)
    then show "\<exists>e' w'. resolveAll d c (CArray (cs @ x # cs')) w = (Returns (Rejected e'), w')"
      by blast
  qed
  have single: "(resolve d c key w = (Returns (Rejected e), wb)
      \<longrightarrow> resolveAll d c (CKey key) w = (Returns (Rejected e), wb))
   \<and> (resolve d c key w = (Throws e, wb)
      \<longrightarrow> resolveAll d c (CKey key) w = (Throws e, wb))"
    by simp
  show ?thesis
    using flat array single by blast
qed

section \<open>The tests of the repository\<close>

text \<open>
  The model gives what the repository's tests expect: \<^verbatim>\<open>Resolve\<close>,
  \<^verbatim>\<open>Resolve Promise\<close>, \<^verbatim>\<open>Resolve getter\<close>, \<^verbatim>\<open>Resolve alias\<close> and the tests of
  \<open>resolveAll\<close> by condition. The two patterns of \<^verbatim>\<open>Resolve by regular expression\<close>
  are written as what their \<^verbatim>\<open>test\<close> computes.
\<close>

lemma given_value_lookup:
  "obj_get ms (providers (ctxs (given_value v) 0)) ''test-key'' = Entry 0"
  by (simp add: given_value_def provider_as_def set_strategy_def provide_snd
        obj_get_obj_set_same test_world_simps)

lemma given_value_strategy: "strategy (provs (given_value v) 0) = Some (Literal v)"
  by (simp add: given_value_def provider_as_def set_strategy_def provide_snd test_world_simps)

lemma given_value_keys: "Object_keys (providers (ctxs (given_value v) 0)) = [''test-key'']"
  by (simp add: given_value_def provider_as_def set_strategy_def provide_snd test_world_simps
        obj_set_def obj_empty_def Object_keys_def is_array_index_def is_digit_def)

lemmas given_value_simps = given_value_lookup given_value_strategy given_value_keys

lemma test_Resolve:
  "resolve d 0 ''test-key'' (given_value (Plain (JStr ''test-value'')))
     = (Returns (Fulfilled (JStr ''test-value'')), given_value (Plain (JStr ''test-value'')))"
  by (simp add: given_value_simps provider_get_def)

lemma test_Resolve_Promise:
  "resolve d 0 ''test-key'' (given_value (Eventual (Fulfilled (JStr ''test-value''))))
     = (Returns (Fulfilled (JStr ''test-value'')),
        given_value (Eventual (Fulfilled (JStr ''test-value''))))"
  by (simp add: given_value_simps provider_get_def)

lemma test_Resolve_getter:
  "fst (resolve d 0 ''test-key''
         (snd (provider_with 0 (\<lambda>u. (Returns (Plain (JStr ''test-value'')), u))
            (snd (provide 0 ''test-key'' test_world)))))
     = Returns (Fulfilled (JStr ''test-value''))"
  by (simp add: provider_get_def provider_with_def set_strategy_def provide_snd
        obj_get_obj_set_same test_world_simps produce_def)

lemma test_Resolve_alias:
  "fst (resolve (Suc d) 0 ''test-key-alias''
         (snd (provider_aliasTo 1 ''test-key''
            (snd (provide 0 ''test-key-alias'' (given_value (Plain (JStr ''test-value''))))))))
     = Returns (Fulfilled (JStr ''test-value''))"
  by (simp add: provider_get_def provider_aliasTo_def set_strategy_def provide_snd
        obj_get_obj_set_same given_value_def provider_as_def test_world_simps
        obj_get_def obj_set_def obj_empty_def)

lemma test_Resolve_all:
  "fst (resolveAll d 0 CUndefined (given_value (Plain (JStr ''test-value''))))
     = Returns (Fulfilled [JStr ''test-value''])"
  "fst (resolveAll d 0 CTrue (given_value (Plain (JStr ''test-value''))))
     = Returns (Fulfilled [JStr ''test-value''])"
  "fst (resolveAll d 0 CNull (given_value (Plain (JStr ''test-value'')))) = Returns (Fulfilled [])"
  "fst (resolveAll d 0 CFalse (given_value (Plain (JStr ''test-value'')))) = Returns (Fulfilled [])"
  "fst (resolveAll d 0 (CRegExp (\<lambda>k. take 5 k = ''test-'')) (given_value (Plain (JStr ''test-value''))))
     = Returns (Fulfilled [JStr ''test-value''])"
  "fst (resolveAll d 0 (CRegExp (\<lambda>k. k = ''test-'')) (given_value (Plain (JStr ''test-value''))))
     = Returns (Fulfilled [])"
  "fst (resolveAll d 0 (CArray [CKey ''test-key'']) (given_value (Plain (JStr ''test-value''))))
     = Returns (Fulfilled [JStr ''test-value''])"
  "fst (resolveAll d 0 (CCallable (\<lambda>k. True)) (given_value (Plain (JStr ''test-value''))))
     = Returns (Fulfilled [JStr ''test-value''])"
  "fst (resolveAll d 0 (CCallable (\<lambda>k. False)) (given_value (Plain (JStr ''test-value''))))
     = Returns (Fulfilled [])"
  by (simp_all add: given_value_simps provider_get_def)



end
